theory Spec2Isabelle
  imports Complex_Main "HOL-Library.AList"
begin

section \<open>Python strings\<close>

text \<open>
  A Python \<open>str\<close> is modelled as a \<open>string\<close> whose characters are the code points
  0..255 (Latin-1), which covers the Spanish text of the four scripts:
  \<open>CHR 0xF3\<close> is o-acute, \<open>CHR 0xED\<close> i-acute, \<open>CHR 0xFA\<close> u-acute,
  \<open>CHR 0xE9\<close> e-acute.
\<close>

definition is_space :: "char \<Rightarrow> bool" where
  \<comment> \<open>\<open>str.isspace\<close> on one code point below 256; also the class \<open>\s\<close> of \<open>re\<close>.\<close>
  "is_space c =
     (let n = (of_char c :: nat)
      in (9 \<le> n \<and> n \<le> 13) \<or> (28 \<le> n \<and> n \<le> 32) \<or> n = 133 \<or> n = 160)"

definition strip :: "string \<Rightarrow> string" where
  \<comment> \<open>\<open>s.strip()\<close>\<close>
  "strip s = rev (dropWhile is_space (rev (dropWhile is_space s)))"

definition lower_char :: "char \<Rightarrow> char" where
  "lower_char c =
     (let n = (of_char c :: nat)
      in if (65 \<le> n \<and> n \<le> 90) \<or> (192 \<le> n \<and> n \<le> 222 \<and> n \<noteq> 215)
         then char_of (n + 32) else c)"

definition lower :: "string \<Rightarrow> string" where
  \<comment> \<open>\<open>s.lower()\<close>\<close>
  "lower s = map lower_char s"

definition replace_comma :: "string \<Rightarrow> string" where
  \<comment> \<open>\<open>s.replace(',', '.')\<close>\<close>
  "replace_comma s = map (\<lambda>c. if c = CHR '','' then CHR ''.'' else c) s"

fun contains :: "string \<Rightarrow> string \<Rightarrow> bool" where
  \<comment> \<open>\<open>sub in s\<close>\<close>
  "contains sub [] = (sub = [])"
| "contains sub (c # cs) = (take (length sub) (c # cs) = sub \<or> contains sub cs)"

fun split_once :: "string \<Rightarrow> (string \<times> string) option" where
  \<comment> \<open>the text before and after the leftmost \<open>***\<close>, if there is one\<close>
  "split_once [] = None"
| "split_once (c # cs) =
     (if take 3 (c # cs) = ''***'' then Some ([], drop 3 (c # cs))
      else (case split_once cs of None \<Rightarrow> None | Some (a, b) \<Rightarrow> Some (c # a, b)))"

fun split_max :: "nat \<Rightarrow> string \<Rightarrow> string list" where
  \<comment> \<open>\<open>s.split('***', n)\<close>\<close>
  "split_max 0 s = [s]"
| "split_max (Suc n) s =
     (case split_once s of None \<Rightarrow> [s] | Some (a, b) \<Rightarrow> a # split_max n b)"

section \<open>The built-in \<open>float\<close>\<close>

text \<open>
  \<open>float(s)\<close> on a string follows the grammar of the language reference: an optional
  sign, then \<open>inf\<close>, \<open>infinity\<close> or \<open>nan\<close> in any case, or a decimal number with
  an optional exponent, where single underscores may separate digits. A string outside the
  grammar raises \<open>ValueError\<close>, modelled as \<open>None\<close>. A finite literal denotes its
  exact decimal value, a rational: rounding to binary64 is not modelled.
\<close>

datatype pyfloat = Fin rat | PInf | NInf | NaN

definition is_digit :: "char \<Rightarrow> bool" where
  "is_digit c = (let n = (of_char c :: nat) in 48 \<le> n \<and> n \<le> 57)"

definition digit_val :: "char \<Rightarrow> nat" where
  "digit_val c = of_char c - 48"

definition digits_nat :: "string \<Rightarrow> nat" where
  "digits_nat ds = foldl (\<lambda>acc c. 10 * acc + digit_val c) 0 ds"

definition pow10 :: "int \<Rightarrow> rat" where
  "pow10 k = (if 0 \<le> k then 10 ^ nat k else 1 / 10 ^ nat (- k))"

fun digitpart_more :: "string \<Rightarrow> string \<times> string" where
  \<comment> \<open>the rest of a digit part after its first digit: the digits read, and what is left\<close>
  "digitpart_more [] = ([], [])"
| "digitpart_more [c] = (if is_digit c then ([c], []) else ([], [c]))"
| "digitpart_more (c # d # cs) =
     (if is_digit c then (case digitpart_more (d # cs) of (ds, r) \<Rightarrow> (c # ds, r))
      else if c = CHR ''_'' \<and> is_digit d
           then (case digitpart_more cs of (ds, r) \<Rightarrow> (d # ds, r))
      else ([], c # d # cs))"

definition digitpart :: "string \<Rightarrow> (string \<times> string) option" where
  "digitpart s =
     (case s of
        [] \<Rightarrow> None
      | c # cs \<Rightarrow>
          if is_digit c then (case digitpart_more cs of (ds, r) \<Rightarrow> Some (c # ds, r))
          else None)"

definition take_sign :: "string \<Rightarrow> bool \<times> string" where
  "take_sign s =
     (case s of
        [] \<Rightarrow> (False, [])
      | c # cs \<Rightarrow>
          if c = CHR ''-'' then (True, cs)
          else if c = CHR ''+'' then (False, cs)
          else (False, s))"

definition exponent :: "string \<Rightarrow> int option" where
  \<comment> \<open>what follows the number: nothing, or an exponent up to the end of the string\<close>
  "exponent s =
     (case s of
        [] \<Rightarrow> Some 0
      | c # cs \<Rightarrow>
          if c = CHR ''e'' \<or> c = CHR ''E''
          then (case take_sign cs of
                  (neg, r) \<Rightarrow>
                    (case digitpart r of
                       Some (ds, []) \<Rightarrow>
                         Some (if neg then - int (digits_nat ds) else int (digits_nat ds))
                     | _ \<Rightarrow> None))
          else None)"

definition decimal :: "string \<Rightarrow> string \<Rightarrow> string \<Rightarrow> rat option" where
  \<comment> \<open>integer digits, fraction digits, and the rest of the string\<close>
  "decimal ip fp r =
     (case exponent r of
        None \<Rightarrow> None
      | Some e \<Rightarrow> Some (of_nat (digits_nat (ip @ fp)) * pow10 (e - int (length fp))))"

definition floatnumber :: "string \<Rightarrow> rat option" where
  "floatnumber s =
     (case digitpart s of
        Some (ip, r) \<Rightarrow>
          (case r of
             [] \<Rightarrow> decimal ip [] []
           | c # r' \<Rightarrow>
               if c = CHR ''.''
               then (case digitpart r' of
                       Some (fp, r'') \<Rightarrow> decimal ip fp r''
                     | None \<Rightarrow> decimal ip [] r')
               else decimal ip [] r)
      | None \<Rightarrow>
          (case s of
             [] \<Rightarrow> None
           | c # r' \<Rightarrow>
               if c = CHR ''.''
               then (case digitpart r' of
                       Some (fp, r'') \<Rightarrow> decimal [] fp r''
                     | None \<Rightarrow> None)
               else None))"

definition py_float :: "string \<Rightarrow> pyfloat option" where
  "py_float s0 =
     (case take_sign (strip s0) of
        (neg, s) \<Rightarrow>
          if lower s = ''inf'' \<or> lower s = ''infinity'' then Some (if neg then NInf else PInf)
          else if lower s = ''nan'' then Some NaN
          else (case floatnumber s of
                  None \<Rightarrow> None
                | Some q \<Rightarrow> Some (Fin (if neg then - q else q))))"

section \<open>Cells and text cleaning\<close>

text \<open>
  The sheet is read with \<open>dtype=str\<close>: a cell is a string or NaN (\<open>None\<close> here).
  \<open>data_frame.at[row, label]\<close> gives the cell when one column carries the label, and a
  \<open>Series\<close> of the cells of all columns carrying it (two or more) when the label is
  duplicated.
\<close>

type_synonym cell = "string option"

datatype cellval = Scalar cell | Series "cell list"

datatype error =
    ValueError_empty_sheet
  | ValueError_missing_columns
  | ValueError_ambiguous_series

datatype vote = Num pyfloat | Text string

type_synonym triple = "vote option \<times> string option \<times> string option"

definition clean_str :: "string \<Rightarrow> string option" where
  \<comment> \<open>the last two lines of \<open>clean_text\<close>, which are all it does on a \<open>str\<close>\<close>
  "clean_str s = (let t = strip s in if t = [] then None else Some t)"

fun clean_text :: "cellval \<Rightarrow> error + string option" where
  \<comment> \<open>chile\_presidencial\_2025, peru\_partidos\_2026, peru\_pres\_2026:
      \<open>if pd.isna(s)\<close> on a Series raises (its truth value is ambiguous)\<close>
  "clean_text (Scalar None) = Inr None"
| "clean_text (Scalar (Some s)) = Inr (clean_str s)"
| "clean_text (Series xs) = Inl ValueError_ambiguous_series"

fun clean_text_chile_partidos :: "cellval \<Rightarrow> string option" where
  \<comment> \<open>chile\_partidos\_2025: a Series is squeezed, and dropped when it stays a Series\<close>
  "clean_text_chile_partidos (Scalar None) = None"
| "clean_text_chile_partidos (Scalar (Some s)) = clean_str s"
| "clean_text_chile_partidos (Series [None]) = None"
| "clean_text_chile_partidos (Series [Some s]) = clean_str s"
| "clean_text_chile_partidos (Series xs) = None"

section \<open>Vote text mapping\<close>

definition map_vote_text_to_value_chile_partidos :: "string option \<Rightarrow> pyfloat option" where
  "map_vote_text_to_value_chile_partidos vote_text =
     (case vote_text of
        None \<Rightarrow> None
      | Some t \<Rightarrow>
          let vt = strip t
          in if vt = [] then None else py_float (replace_comma vt))"

definition map_vote_text_to_value_peru_partidos :: "string option \<Rightarrow> pyfloat option" where
  "map_vote_text_to_value_peru_partidos vote_text =
     (case vote_text of
        None \<Rightarrow> None
      | Some t \<Rightarrow>
          let vt = strip t
          in if vt = [] then None else py_float (replace_comma vt))"

definition map_vote_text_to_value_peru_pres :: "string option \<Rightarrow> pyfloat option" where
  "map_vote_text_to_value_peru_pres vote_text =
     (case vote_text of
        None \<Rightarrow> None
      | Some t \<Rightarrow>
          let vt = strip t
          in if vt = [] then None
             else (case py_float (replace_comma vt) of
                     Some num \<Rightarrow> Some num
                   | None \<Rightarrow>
                       let vt_low = lower vt
                       in if contains ''a favor'' vt_low \<or> vt_low = ''favor'' then Some (Fin 1)
                          else if contains ''en contra'' vt_low \<or> ''contra'' = vt_low
                               then Some (Fin 0)
                          else if contains ''neutral'' vt_low then Some (Fin (1 / 2))
                          else if vt_low \<in> set [[CHR ''s'', CHR 0xED], ''si'', ''yes'']
                               then Some (Fin 1)
                          else if vt_low \<in> set [''no''] then Some (Fin 0)
                          else None))"

section \<open>Cell interpretation\<close>

definition MISSING_VOTE_DEFAULT :: pyfloat where
  "MISSING_VOTE_DEFAULT = Fin (1 / 2)"

definition MISSING_COMMENT_DEFAULT :: string where
  "MISSING_COMMENT_DEFAULT =
     ''No se encontr'' @ [CHR 0xF3] @ '' informaci'' @ [CHR 0xF3] @ ''n p'' @ [CHR 0xFA]
       @ ''blica sobre su posici'' @ [CHR 0xF3] @ ''n.''"

definition MISSING_SOURCE_DEFAULT :: "string option" where
  "MISSING_SOURCE_DEFAULT = None"

definition missing_triple :: triple where
  "missing_triple =
     (Some (Num MISSING_VOTE_DEFAULT), Some MISSING_COMMENT_DEFAULT, MISSING_SOURCE_DEFAULT)"

definition split_parts :: "string \<Rightarrow> string option \<times> string option \<times> string option" where
  \<comment> \<open>\<open>parts = raw.split('***', 2)\<close> and the three guarded \<open>clean_text(parts[i])\<close>\<close>
  "split_parts raw =
     (let parts = split_max 2 raw
      in (if length parts \<ge> 1 then clean_str (parts ! 0) else None,
          if length parts \<ge> 2 then clean_str (parts ! 1) else None,
          if length parts \<ge> 3 then clean_str (parts ! 2) else None))"

definition parse_cell_combined_with ::
  "(string option \<Rightarrow> vote option) \<Rightarrow> string option \<Rightarrow> triple" where
  \<comment> \<open>the body of \<open>parse_cell_combined\<close> after \<open>raw = clean_text(cell_value)\<close>, which
      the four files share up to what they do with \<open>vote_part\<close>\<close>
  "parse_cell_combined_with vote_of raw =
     (case raw of
        None \<Rightarrow> missing_triple
      | Some r \<Rightarrow>
          (case split_parts r of
             (vote_part, comment_part, source_part) \<Rightarrow>
               (vote_of vote_part, comment_part, source_part)))"

definition parse_cell_combined_chile_partidos :: "cellval \<Rightarrow> triple" where
  "parse_cell_combined_chile_partidos cell_value =
     parse_cell_combined_with
       (\<lambda>vote_part. map_option Num (map_vote_text_to_value_chile_partidos vote_part))
       (clean_text_chile_partidos cell_value)"

definition parse_cell_combined_chile_presidencial :: "cellval \<Rightarrow> error + triple" where
  \<comment> \<open>returns \<open>vote_part\<close> itself, a \<open>str\<close>\<close>
  "parse_cell_combined_chile_presidencial cell_value =
     (case clean_text cell_value of
        Inl e \<Rightarrow> Inl e
      | Inr raw \<Rightarrow> Inr (parse_cell_combined_with (\<lambda>vote_part. map_option Text vote_part) raw))"

definition parse_cell_combined_peru_partidos :: "cellval \<Rightarrow> error + triple" where
  "parse_cell_combined_peru_partidos cell_value =
     (case clean_text cell_value of
        Inl e \<Rightarrow> Inl e
      | Inr raw \<Rightarrow>
          Inr (parse_cell_combined_with
                 (\<lambda>vote_part. map_option Num (map_vote_text_to_value_peru_partidos vote_part))
                 raw))"

definition parse_cell_combined_peru_pres :: "cellval \<Rightarrow> error + triple" where
  "parse_cell_combined_peru_pres cell_value =
     (case clean_text cell_value of
        Inl e \<Rightarrow> Inl e
      | Inr raw \<Rightarrow>
          Inr (parse_cell_combined_with
                 (\<lambda>vote_part. map_option Num (map_vote_text_to_value_peru_pres vote_part))
                 raw))"

section \<open>Candidate headers\<close>

definition newline :: char where
  "newline = CHR 0x0A"

fun lazy_party :: "string \<Rightarrow> string \<Rightarrow> string option" where
  \<comment> \<open>\<open>(.*?)\)\s*$\<close> after the opening parenthesis: the shortest group first\<close>
  "lazy_party acc [] = None"
| "lazy_party acc (c # cs) =
     (if c = CHR '')'' \<and> list_all is_space cs then Some (rev acc)
      else if c = newline then None
      else lazy_party (c # acc) cs)"

definition suffix_match :: "string \<Rightarrow> string option" where
  \<comment> \<open>\<open>\s*\((.*?)\)\s*$\<close>\<close>
  "suffix_match s =
     (case dropWhile is_space s of
        [] \<Rightarrow> None
      | c # cs \<Rightarrow> if c = CHR ''('' then lazy_party [] cs else None)"

fun header_match :: "string \<Rightarrow> string \<Rightarrow> (string \<times> string) option" where
  \<comment> \<open>\<open>re.match(r'^(.*?)\s*\((.*?)\)\s*$', s)\<close>: groups 1 and 2 of the first match
      in backtracking order; a dot does not match a newline\<close>
  "header_match acc s =
     (case suffix_match s of
        Some q \<Rightarrow> Some (rev acc, q)
      | None \<Rightarrow>
          (case s of
             [] \<Rightarrow> None
           | c # cs \<Rightarrow> if c = newline then None else header_match (c # acc) cs))"

definition parse_candidate_header :: "string option \<Rightarrow> string option \<times> string option" where
  \<comment> \<open>the same function in chile\_presidencial\_2025 and peru\_pres\_2026\<close>
  "parse_candidate_header header_str =
     (case header_str of
        None \<Rightarrow> (None, None)
      | Some h \<Rightarrow>
          (case header_match [] (strip h) of
             Some (g1, g2) \<Rightarrow> (Some (strip g1), Some (strip g2))
           | None \<Rightarrow> (Some (strip h), None)))"

section \<open>The sheet and the reshaping loops\<close>

text \<open>
  The raw sheet is a list of rows, each a list of cells; \<open>head\<close> keeps its first rows, the
  first row kept becomes the column labels and the rest is the data. The dictionaries
  \<open>party_info\<close>, \<open>candidates_info\<close> and \<open>votes\<close> are association lists in insertion
  order: assigning to a key that is present replaces its value in place. A column label is
  a cell; the NaN labels of empty header cells are taken as one and the same label.
  The four files have the same loops and differ in the rows kept, in \<open>clean_text\<close>, in
  \<open>parse_cell_combined\<close> and in the defaults enforced on an all-absent triple: the record
  \<open>variant\<close> holds these four, and the loops are written once over it.
\<close>

record vote_record =
  tema :: "string option"
  question :: string
  vote :: "vote option"
  comment :: "string option"
  source :: "string option"

type_synonym votes = "(string \<times> vote_record) list"

type_synonym 'a info = "(cell \<times> 'a \<times> votes) list"

record variant =
  head_rows :: "cell list list \<Rightarrow> cell list list"
  clean :: "cellval \<Rightarrow> error + string option"
  parse :: "cellval \<Rightarrow> error + triple"
  defaults :: triple

definition frame_at :: "cell list \<Rightarrow> cell list \<Rightarrow> cell \<Rightarrow> cellval" where
  \<comment> \<open>\<open>data_frame.at[row_index, label]\<close> for a label among the columns; the frame is
      rectangular, so a row that is short of cells reads as filled up with NaN\<close>
  "frame_at columns row label =
     (case map snd (filter (\<lambda>cv. fst cv = label)
                     (zip columns (row @ replicate (length columns - length row) None))) of
        [v] \<Rightarrow> Scalar v
      | vs \<Rightarrow> Series vs)"

definition cell_value :: "cell list \<Rightarrow> cell list \<Rightarrow> cell \<Rightarrow> cellval" where
  \<comment> \<open>\<open>data_frame.at[row_index, label] if label in data_frame.columns else None\<close>\<close>
  "cell_value columns row label =
     (if label \<in> set columns then frame_at columns row label else Scalar None)"

definition question_identifier :: "string option \<Rightarrow> string \<Rightarrow> string" where
  \<comment> \<open>\<open>f"{topic_text}: {statement_text}" if topic_text else statement_text\<close>\<close>
  "question_identifier topic_text statement_text =
     (case topic_text of
        None \<Rightarrow> statement_text
      | Some t \<Rightarrow> if t \<noteq> [] then t @ '': '' @ statement_text else statement_text)"

definition vote_entry :: "triple \<Rightarrow> string option \<Rightarrow> string \<Rightarrow> triple \<Rightarrow> vote_record" where
  \<comment> \<open>the defaults enforced on an all-absent triple, then the record stored\<close>
  "vote_entry dflt topic_text statement_text t =
     (case (if fst t = None \<and> fst (snd t) = None \<and> snd (snd t) = None then dflt else t) of
        (vote_value, comment_value, source_value) \<Rightarrow>
          \<lparr>tema = topic_text, question = statement_text, vote = vote_value,
           comment = comment_value, source = source_value\<rparr>)"

definition store :: "cell \<Rightarrow> string \<Rightarrow> vote_record \<Rightarrow> 'a info \<Rightarrow> 'a info" where
  \<comment> \<open>\<open>info[column]["votes"][question_identifier] = record\<close>; every column stored to
      is a key of \<open>info\<close>, which was filled from the same list of columns\<close>
  "store column qid r info =
     AList.map_entry column (\<lambda>(m, vs). (m, AList.update qid r vs)) info"

fun entity_loop ::
  "variant \<Rightarrow> cell list \<Rightarrow> cell list \<Rightarrow> string option \<Rightarrow> string \<Rightarrow> cell list \<Rightarrow> 'a info
     \<Rightarrow> error + 'a info" where
  "entity_loop V columns row topic_text statement_text [] info = Inr info"
| "entity_loop V columns row topic_text statement_text (c # cs) info =
     (case parse V (cell_value columns row c) of
        Inl e \<Rightarrow> Inl e
      | Inr t \<Rightarrow>
          entity_loop V columns row topic_text statement_text cs
            (store c (question_identifier topic_text statement_text)
               (vote_entry (defaults V) topic_text statement_text t) info))"

fun row_loop ::
  "variant \<Rightarrow> cell list \<Rightarrow> cell list \<Rightarrow> cell list list \<Rightarrow> 'a info \<Rightarrow> error + 'a info" where
  "row_loop V columns ecols [] info = Inr info"
| "row_loop V columns ecols (row # rows) info =
     (case clean V (cell_value columns row (Some ''Tema'')) of
        Inl e \<Rightarrow> Inl e
      | Inr topic_text \<Rightarrow>
          (case clean V (cell_value columns row (Some ''Statement'')) of
             Inl e \<Rightarrow> Inl e
           | Inr None \<Rightarrow> row_loop V columns ecols rows info
           | Inr (Some statement_text) \<Rightarrow>
               (case entity_loop V columns row topic_text statement_text ecols info of
                  Inl e \<Rightarrow> Inl e
                | Inr info' \<Rightarrow> row_loop V columns ecols rows info')))"

definition entity_columns :: "cell list \<Rightarrow> cell list" where
  "entity_columns columns =
     filter (\<lambda>column_name. column_name \<notin> set [Some ''Tema'', Some ''Statement'']) columns"

definition init_info :: "(cell \<Rightarrow> 'a) \<Rightarrow> cell list \<Rightarrow> 'a info" where
  "init_info meta ecols = foldl (\<lambda>info c. AList.update c (meta c, []) info) [] ecols"

definition reshape :: "variant \<Rightarrow> (cell \<Rightarrow> 'a) \<Rightarrow> cell list list \<Rightarrow> error + 'a info" where
  \<comment> \<open>\<open>generate_from_new_structure\<close> up to the end of the row loop\<close>
  "reshape V meta sheet =
     (case head_rows V sheet of
        [] \<Rightarrow> Inl ValueError_empty_sheet
      | columns # data \<Rightarrow>
          if Some ''Statement'' \<notin> set columns \<or> Some ''Tema'' \<notin> set columns
          then Inl ValueError_missing_columns
          else row_loop V columns (entity_columns columns) data
                 (init_info meta (entity_columns columns)))"

definition combine :: "('a \<Rightarrow> cell) \<Rightarrow> ('a \<Rightarrow> 'b) \<Rightarrow> 'a info \<Rightarrow> (cell \<times> 'b \<times> votes) list" where
  \<comment> \<open>the final loop over \<open>info.items()\<close>, keyed by the stored header\<close>
  "combine hdr entry info =
     foldl (\<lambda>out (k, m, vs). AList.update (hdr m) (entry m, vs) out) [] info"

datatype document =
    Parties "(cell \<times> cell \<times> votes) list"
  | Candidates "(cell \<times> (string option \<times> string option) \<times> votes) list"


section \<open>The four scripts\<close>

definition local_defaults :: triple where
  \<comment> \<open>the defaults that \<open>generate_from_new_structure\<close> defines for itself in the two
      Peru files\<close>
  "local_defaults = (Some (Num (Fin (1 / 2))), Some (''No se encontr'' @ [CHR 0xF3] @ ''...''), None)"

definition number_of_topics :: nat where
  "number_of_topics = 8"

definition chile_partidos_2025 :: variant where
  "chile_partidos_2025 =
     \<lparr>head_rows = take 15,
      clean = (\<lambda>s. Inr (clean_text_chile_partidos s)),
      parse = (\<lambda>cell_value. Inr (parse_cell_combined_chile_partidos cell_value)),
      defaults = missing_triple\<rparr>"

definition chile_presidencial_2025 :: variant where
  "chile_presidencial_2025 =
     \<lparr>head_rows = take 21,
      clean = clean_text,
      parse = parse_cell_combined_chile_presidencial,
      defaults = missing_triple\<rparr>"

definition peru_partidos_2026 :: variant where
  "peru_partidos_2026 =
     \<lparr>head_rows = take (number_of_topics + 1),
      clean = clean_text,
      parse = parse_cell_combined_peru_partidos,
      defaults = local_defaults\<rparr>"

definition peru_pres_2026 :: variant where
  "peru_pres_2026 =
     \<lparr>head_rows = (\<lambda>sheet. take 12 (take (number_of_topics + 1) sheet)),
      clean = clean_text,
      parse = parse_cell_combined_peru_pres,
      defaults = local_defaults\<rparr>"

definition party_meta :: "cell \<Rightarrow> cell \<times> cell" where
  \<comment> \<open>header and name\<close>
  "party_meta party_column = (party_column, party_column)"

definition label_str :: "cell \<Rightarrow> string" where
  \<comment> \<open>\<open>str\<close> of a column label; of NaN it is \<open>nan\<close>\<close>
  "label_str c = (case c of None \<Rightarrow> ''nan'' | Some s \<Rightarrow> s)"

definition candidate_meta :: "cell \<Rightarrow> cell \<times> string option \<times> string option" where
  \<comment> \<open>header, then name and party\<close>
  "candidate_meta candidate_column =
     (candidate_column, parse_candidate_header (Some (label_str candidate_column)))"

definition generate_from_new_structure_chile_partidos :: "cell list list \<Rightarrow> error + document" where
  "generate_from_new_structure_chile_partidos sheet =
     (case reshape chile_partidos_2025 party_meta sheet of
        Inl e \<Rightarrow> Inl e
      | Inr info \<Rightarrow> Inr (Parties (combine fst snd info)))"

definition generate_from_new_structure_chile_presidencial :: "cell list list \<Rightarrow> error + document" where
  "generate_from_new_structure_chile_presidencial sheet =
     (case reshape chile_presidencial_2025 candidate_meta sheet of
        Inl e \<Rightarrow> Inl e
      | Inr info \<Rightarrow> Inr (Candidates (combine fst snd info)))"

definition generate_from_new_structure_peru_partidos :: "cell list list \<Rightarrow> error + document" where
  "generate_from_new_structure_peru_partidos sheet =
     (case reshape peru_partidos_2026 party_meta sheet of
        Inl e \<Rightarrow> Inl e
      | Inr info \<Rightarrow> Inr (Parties (combine fst snd info)))"

definition generate_from_new_structure_peru_pres :: "cell list list \<Rightarrow> error + document" where
  "generate_from_new_structure_peru_pres sheet =
     (case reshape peru_pres_2026 candidate_meta sheet of
        Inl e \<Rightarrow> Inl e
      | Inr info \<Rightarrow> Inr (Candidates (combine fst snd info)))"

section \<open>The vote mapper as the specification words it\<close>

definition vocabulary :: "((string \<Rightarrow> bool) \<times> pyfloat) list" where
  \<comment> \<open>the five rules of the specification, in its order\<close>
  "vocabulary =
     [(\<lambda>t. contains ''a favor'' t \<or> t = ''favor'', Fin 1),
      (\<lambda>t. contains ''en contra'' t \<or> t = ''contra'', Fin 0),
      (\<lambda>t. contains ''neutral'' t, Fin (1 / 2)),
      (\<lambda>t. t = [CHR ''s'', CHR 0xED] \<or> t = ''si'' \<or> t = ''yes'', Fin 1),
      (\<lambda>t. t = ''no'', Fin 0)]"

fun first_match :: "((string \<Rightarrow> bool) \<times> pyfloat) list \<Rightarrow> string \<Rightarrow> pyfloat option" where
  "first_match [] t = None"
| "first_match ((p, v) # rules) t = (if p t then Some v else first_match rules t)"

definition mapVote :: "string option \<Rightarrow> pyfloat option" where
  "mapVote text =
     (case text of
        None \<Rightarrow> None
      | Some t \<Rightarrow>
          if t = [] then None
          else (case py_float (replace_comma t) of
                  Some x \<Rightarrow> Some x
                | None \<Rightarrow> first_match vocabulary (lower t)))"

section \<open>Reading the loops\<close>




definition programs :: "((cell list list \<Rightarrow> error + document) \<times> variant) list" where
  \<comment> \<open>the four scripts, each with its parameters\<close>
  "programs =
     [(generate_from_new_structure_chile_partidos, chile_partidos_2025),
      (generate_from_new_structure_chile_presidencial, chile_presidencial_2025),
      (generate_from_new_structure_peru_partidos, peru_partidos_2026),
      (generate_from_new_structure_peru_pres, peru_pres_2026)]"




section \<open>Splitting a cell on the delimiter\<close>

lemma split_once_None_iff: "split_once s = None \<longleftrightarrow> \<not> contains ''***'' s"
proof (induction s)
  case Nil
  show ?case by simp
next
  case (Cons c s)
  define P where "P = (take 3 (c # s) = ''***'')"
  have l: "length ''***'' = 3" by simp
  have 1: "split_once (c # s) =
      (if P then Some ([], drop 3 (c # s))
       else (case split_once s of None \<Rightarrow> None | Some (a, b) \<Rightarrow> Some (c # a, b)))"
    by (simp only: split_once.simps P_def)
  have 2: "contains ''***'' (c # s) = (P \<or> contains ''***'' s)"
    by (simp only: contains.simps l P_def)
  show ?case unfolding 1 2 using Cons.IH by (cases P; cases "split_once s") auto
qed

lemma take3_stars:
  "take 3 (c # a @ ''**'') = ''***'' \<longleftrightarrow> take 3 (c # a @ ''***'' @ b) = ''***''"
proof (cases a)
  case Nil
  then show ?thesis by simp
next
  case (Cons x xs)
  then show ?thesis by (cases xs) simp_all
qed


lemma split_once_SomeD:
  "split_once s = Some (a, b) \<Longrightarrow> s = a @ ''***'' @ b \<and> \<not> contains ''***'' (a @ ''**'')"
proof (induction s arbitrary: a)
  case Nil
  then show ?case by simp
next
  case (Cons c s)
  define P where "P = (take 3 (c # s) = ''***'')"
  have l: "length ''***'' = 3" by simp
  have 1: "split_once (c # s) =
      (if P then Some ([], drop 3 (c # s))
       else (case split_once s of None \<Rightarrow> None | Some (a, b) \<Rightarrow> Some (c # a, b)))"
    by (simp only: split_once.simps P_def)
  show ?case
  proof (cases P)
    case True
    with Cons.prems 1 have ab: "a = []" "b = drop 3 (c # s)" by simp_all
    from True have "c # s = ''***'' @ drop 3 (c # s)"
      unfolding P_def by (metis append_take_drop_id)
    moreover have "\<not> contains ''***'' ''**''" by simp
    ultimately show ?thesis using ab by simp
  next
    case False
    with Cons.prems 1 obtain a' where s: "split_once s = Some (a', b)" and a: "a = c # a'"
      by (cases "split_once s") auto
    from Cons.IH [OF s] have ih: "s = a' @ ''***'' @ b" "\<not> contains ''***'' (a' @ ''**'')"
      by blast+
    from False have "take 3 (c # a' @ ''***'' @ b) \<noteq> ''***''"
      unfolding P_def ih(1) [symmetric] .
    then have "take 3 (c # a' @ ''**'') \<noteq> ''***''"
      using take3_stars by blast
    then have "\<not> contains ''***'' ((c # a') @ ''**'')"
      unfolding append_Cons contains.simps l using ih(2) by blast
    with ih(1) a show ?thesis by simp
  qed
qed





lemma split_shapes:
  "\<not> contains ''***'' raw \<or>
   (\<exists>a b. raw = a @ ''***'' @ b \<and> \<not> contains ''***'' (a @ ''**'') \<and> \<not> contains ''***'' b) \<or>
   (\<exists>a b c. raw = a @ ''***'' @ b @ ''***'' @ c \<and> \<not> contains ''***'' (a @ ''**'') \<and>
       \<not> contains ''***'' (b @ ''**''))"
proof (cases "split_once raw")
  case None
  then show ?thesis using split_once_None_iff by blast
next
  case (Some p)
  obtain a r where p: "p = (a, r)" by (cases p)
  from split_once_SomeD [OF Some [unfolded p]]
  have 1: "raw = a @ ''***'' @ r" "\<not> contains ''***'' (a @ ''**'')"
    by blast+
  show ?thesis
  proof (cases "split_once r")
    case None
    with 1 show ?thesis using split_once_None_iff by blast
  next
    case (Some q)
    obtain b c where q: "q = (b, c)" by (cases q)
    from split_once_SomeD [OF Some [unfolded q]] 1 show ?thesis by blast
  qed
qed

section \<open>Missing cells\<close>

text \<open>
  C1. A cell that cleans to absent is given the missing-cell default triple
  (vote 0.5, the fixed Spanish placeholder, no source) by \<open>parse_cell_combined\<close> in each
  of the four files, and the shared body returns it whatever is done with the vote part:
  vote mapping is not reached.
\<close>

theorem missing_cell_default:
  "(clean_text_chile_partidos cv = None \<longrightarrow>
      parse_cell_combined_chile_partidos cv = missing_triple) \<and>
   (clean_text cv = Inr None \<longrightarrow>
      parse_cell_combined_chile_presidencial cv = Inr missing_triple \<and>
      parse_cell_combined_peru_partidos cv = Inr missing_triple \<and>
      parse_cell_combined_peru_pres cv = Inr missing_triple) \<and>
   parse_cell_combined_with vote_of None = missing_triple \<and>
   missing_triple = (Some (Num (Fin (1 / 2))), Some MISSING_COMMENT_DEFAULT, None)"
  by (simp add: parse_cell_combined_chile_partidos_def parse_cell_combined_chile_presidencial_def
      parse_cell_combined_peru_partidos_def parse_cell_combined_peru_pres_def
      parse_cell_combined_with_def missing_triple_def MISSING_VOTE_DEFAULT_def
      MISSING_SOURCE_DEFAULT_def)

theorem missing_cell_default_witness:
  "clean_text_chile_partidos (Scalar (Some ''   '')) = None \<and>
   parse_cell_combined_chile_partidos (Scalar (Some ''   '')) = missing_triple \<and>
   clean_text (Scalar (Some ''   '')) = Inr None \<and>
   parse_cell_combined_chile_presidencial (Scalar (Some ''   '')) = Inr missing_triple \<and>
   parse_cell_combined_peru_partidos (Scalar (Some ''   '')) = Inr missing_triple \<and>
   parse_cell_combined_peru_pres (Scalar (Some ''   '')) = Inr missing_triple"
  using missing_cell_default [of "Scalar (Some ''   '')"]
  by (simp add: clean_str_def strip_def is_space_def)


section \<open>The vote mapper with the vocabulary\<close>

text \<open>
  C4. In peru\_pres\_2026, \<open>map_vote_text_to_value\<close> is the mapper of the specification
  on the stripped text: the number parsed after replacing commas by periods, returned as
  it is, and otherwise the first matching rule of the vocabulary on the lower-cased text,
  and absent when none matches. The examples of the specification evaluate as it says,
  and 2,5 and -3 are returned unclamped.
\<close>

theorem vote_mapper_peru_pres:
  "map_vote_text_to_value_peru_pres vote_text = mapVote (map_option strip vote_text) \<and>
   map_vote_text_to_value_peru_pres (Some ''A favor'') = Some (Fin 1) \<and>
   map_vote_text_to_value_peru_pres (Some ''a favor de algo'') = Some (Fin 1) \<and>
   map_vote_text_to_value_peru_pres (Some ''1'') = Some (Fin 1) \<and>
   map_vote_text_to_value_peru_pres (Some ''1,0'') = Some (Fin 1) \<and>
   map_vote_text_to_value_peru_pres (Some ''En contra'') = Some (Fin 0) \<and>
   map_vote_text_to_value_peru_pres (Some ''neutral'') = Some (Fin (1 / 2)) \<and>
   map_vote_text_to_value_peru_pres (Some ''tal vez'') = None \<and>
   map_vote_text_to_value_peru_pres (Some ''2,5'') = Some (Fin (5 / 2)) \<and>
   map_vote_text_to_value_peru_pres (Some ''-3'') = Some (Fin (- 3))"
proof (intro conjI)
  show "map_vote_text_to_value_peru_pres vote_text = mapVote (map_option strip vote_text)"
    by (cases vote_text)
       (auto simp: map_vote_text_to_value_peru_pres_def mapVote_def vocabulary_def Let_def
             split: option.splits)
qed code_simp+

theorem vote_mapper_peru_pres_witness:
  "map_vote_text_to_value_peru_pres (Some '' Favor '') = mapVote (Some ''Favor'') \<and>
   mapVote (Some ''Favor'') = Some (Fin 1)"
proof
  show "map_vote_text_to_value_peru_pres (Some '' Favor '') = mapVote (Some ''Favor'')"
    using vote_mapper_peru_pres [of "Some '' Favor ''"] by (simp add: strip_def is_space_def)
  show "mapVote (Some ''Favor'') = Some (Fin 1)"
    by code_simp
qed

section \<open>The variants of the vote mapping\<close>

lemma numeric_only_variants:
  "map_vote_text_to_value_chile_partidos = map_vote_text_to_value_peru_partidos"
  "py_float (replace_comma (strip t)) = None \<Longrightarrow>
     map_vote_text_to_value_chile_partidos (Some t) = None"
  by (auto simp: map_vote_text_to_value_chile_partidos_def
        map_vote_text_to_value_peru_partidos_def Let_def fun_eq_iff)

text \<open>
  C3. Two files (chile\_partidos\_2025 and peru\_partidos\_2026) parse numbers only, and
  peru\_pres\_2026 maps numbers and then the vocabulary. The fourth, chile\_presidencial\_2025,
  does neither: its \<open>parse_cell_combined\<close> returns the position text itself, so
  \<open>A favor\<close> stays a string and so does \<open>1\<close>.
\<close>

theorem chile_presidencial_vote_unmapped:
  "parse_cell_combined_chile_presidencial (Scalar (Some ''A favor'')) =
     Inr (Some (Text ''A favor''), None, None) \<and>
   parse_cell_combined_chile_presidencial (Scalar (Some ''1'')) =
     Inr (Some (Text ''1''), None, None) \<and>
   parse_cell_combined_peru_pres (Scalar (Some ''A favor'')) =
     Inr (Some (Num (Fin 1)), None, None) \<and>
   parse_cell_combined_peru_partidos (Scalar (Some ''A favor'')) = Inr (None, None, None) \<and>
   parse_cell_combined_chile_partidos (Scalar (Some ''A favor'')) = (None, None, None)"
  by (intro conjI) code_simp+

section \<open>Segments of a cell\<close>




section \<open>Cells that reduce to nothing\<close>

lemma chile_all_absent_is_missing:
  "vote_entry (defaults chile_partidos_2025) topic_text statement_text (None, None, None) =
     vote_entry (defaults chile_partidos_2025) topic_text statement_text missing_triple"
  "vote_entry (defaults chile_presidencial_2025) topic_text statement_text (None, None, None) =
     vote_entry (defaults chile_presidencial_2025) topic_text statement_text missing_triple"
  by (simp_all add: vote_entry_def chile_partidos_2025_def chile_presidencial_2025_def
        missing_triple_def)

text \<open>
  C2. In peru\_partidos\_2026 a cell holding only \<open>***\<close> is stored with the comment of the
  defaults local to \<open>generate_from_new_structure\<close>, while the empty cell beside it is
  stored with \<open>MISSING_COMMENT_DEFAULT\<close>: the two records differ.
\<close>

theorem peru_all_absent_record:
  "generate_from_new_structure_peru_partidos
     [[Some ''Tema'', Some ''Statement'', Some ''A'', Some ''B''],
      [Some ''t'', Some ''s'', Some ''***'', None]] =
   Inr (Parties
     [(Some ''A'', Some ''A'',
       [(''t: s'', \<lparr>tema = Some ''t'', question = ''s'', vote = Some (Num (Fin (1 / 2))),
           comment = Some (''No se encontr'' @ [CHR 0xF3] @ ''...''), source = None\<rparr>)]),
      (Some ''B'', Some ''B'',
       [(''t: s'', \<lparr>tema = Some ''t'', question = ''s'', vote = Some (Num (Fin (1 / 2))),
           comment = Some MISSING_COMMENT_DEFAULT, source = None\<rparr>)])]) \<and>
   ''No se encontr'' @ [CHR 0xF3] @ ''...'' \<noteq> MISSING_COMMENT_DEFAULT"
  by (intro conjI) code_simp+


section \<open>The loops in closed form\<close>




















lemma program_cases:
  assumes "(g, V) \<in> set programs"
  obtains (parties) "V = chile_partidos_2025 \<or> V = peru_partidos_2026"
      "\<And>sheet. g sheet = (case reshape V party_meta sheet of
          Inl e \<Rightarrow> Inl e | Inr info \<Rightarrow> Inr (Parties (combine fst snd info)))"
    | (candidates) "V = chile_presidencial_2025 \<or> V = peru_pres_2026"
      "\<And>sheet. g sheet = (case reshape V candidate_meta sheet of
          Inl e \<Rightarrow> Inl e | Inr info \<Rightarrow> Inr (Candidates (combine fst snd info)))"
  using assms unfolding programs_def
  by (auto simp: generate_from_new_structure_chile_partidos_def
      generate_from_new_structure_chile_presidencial_def
      generate_from_new_structure_peru_partidos_def generate_from_new_structure_peru_pres_def)









section \<open>Colliding question identifiers\<close>



section \<open>All entities answer the same questions\<close>



section \<open>The row cap\<close>

text \<open>
  C8. Each script gives on a sheet what it gives on the sheet's first K rows (header
  included), with K = 15, 21, 9 and 9: the rows beyond the cap contribute no record and no
  error.
\<close>

theorem row_cap:
  "generate_from_new_structure_chile_partidos sheet =
     generate_from_new_structure_chile_partidos (take 15 sheet) \<and>
   generate_from_new_structure_chile_presidencial sheet =
     generate_from_new_structure_chile_presidencial (take 21 sheet) \<and>
   generate_from_new_structure_peru_partidos sheet =
     generate_from_new_structure_peru_partidos (take 9 sheet) \<and>
   generate_from_new_structure_peru_pres sheet =
     generate_from_new_structure_peru_pres (take 9 sheet)"
  by (simp add: generate_from_new_structure_chile_partidos_def
      generate_from_new_structure_chile_presidencial_def
      generate_from_new_structure_peru_partidos_def generate_from_new_structure_peru_pres_def
      reshape_def chile_partidos_2025_def chile_presidencial_2025_def peru_partidos_2026_def
      peru_pres_2026_def number_of_topics_def)

section \<open>Fatal errors\<close>

lemma fatal_if:
  assumes "(g, V) \<in> set programs"
  shows "head_rows V sheet = [] \<Longrightarrow> g sheet = Inl ValueError_empty_sheet"
    and "head_rows V sheet = columns # rows \<Longrightarrow>
         Some ''Tema'' \<notin> set columns \<or> Some ''Statement'' \<notin> set columns \<Longrightarrow>
         g sheet = Inl ValueError_missing_columns"
  using assms by (cases rule: program_cases; auto simp: reshape_def)+

lemma entity_loop_completes:
  assumes "\<And>c. c \<in> set cs \<Longrightarrow> \<exists>t. parse V (cell_value columns row c) = Inr t"
  shows "\<exists>info'. entity_loop V columns row topic_text statement_text cs info = Inr info'"
  using assms
proof (induction cs arbitrary: info)
  case Nil
  show ?case by simp
next
  case (Cons c cs)
  have "c \<in> set (c # cs)" by simp
  with Cons.prems obtain t where "parse V (cell_value columns row c) = Inr t"
    by blast
  moreover have "\<exists>info'. entity_loop V columns row topic_text statement_text cs info = Inr info'"
    for info :: "'a info"
    by (rule Cons.IH) (rule Cons.prems, simp)
  ultimately show ?case by simp
qed

lemma row_loop_completes:
  assumes "\<And>row. \<exists>y. clean V (cell_value columns row (Some ''Tema'')) = Inr y"
    and "\<And>row. \<exists>y. clean V (cell_value columns row (Some ''Statement'')) = Inr y"
    and "\<And>row c. c \<in> set ecols \<Longrightarrow> \<exists>t. parse V (cell_value columns row c) = Inr t"
  shows "\<exists>info'. row_loop V columns ecols rows info = Inr info'"
proof (induction rows arbitrary: info)
  case Nil
  show ?case by simp
next
  case (Cons row rows)
  from assms(1) obtain topic_text where
    t: "clean V (cell_value columns row (Some ''Tema'')) = Inr topic_text" by blast
  from assms(2) obtain st where
    s: "clean V (cell_value columns row (Some ''Statement'')) = Inr st" by blast
  show ?case
  proof (cases st)
    case None
    with t s Cons.IH show ?thesis by simp
  next
    case (Some statement_text)
    from entity_loop_completes [of ecols V columns row topic_text statement_text info] assms(3)
    obtain info1 where
      "entity_loop V columns row topic_text statement_text ecols info = Inr info1"
      by blast
    with t s Some Cons.IH [of info1] show ?thesis by simp
  qed
qed

lemma unique_label_cell:
  "distinct cs \<Longrightarrow> l \<in> set cs \<Longrightarrow> length cs \<le> length r \<Longrightarrow>
   \<exists>v. map snd (filter (\<lambda>cv. fst cv = l) (zip cs r)) = [v]"
proof (induction cs arbitrary: r)
  case Nil
  then show ?case by simp
next
  case (Cons c cs)
  from Cons.prems(3) obtain x r' where r: "r = x # r'" and len: "length cs \<le> length r'"
    by (cases r) auto
  show ?case
  proof (cases "c = l")
    case True
    with Cons.prems(1) have "l \<notin> set cs" by simp
    then have "filter (\<lambda>cv. fst cv = l) (zip cs r') = []"
      by (auto simp: filter_empty_conv dest: set_zip_leftD)
    with True r show ?thesis by simp
  next
    case False
    with Cons.prems have "distinct cs" "l \<in> set cs" by auto
    from Cons.IH [OF this len] False r show ?thesis by simp
  qed
qed

lemma cell_value_scalar:
  assumes "distinct columns"
  shows "\<exists>v. cell_value columns row l = Scalar v"
proof (cases "l \<in> set columns")
  case True
  have "length columns \<le> length (row @ replicate (length columns - length row) None)"
    by simp
  from unique_label_cell [OF assms True this] show ?thesis
    by (auto simp: cell_value_def frame_at_def True)
next
  case False
  then show ?thesis by (simp add: cell_value_def)
qed

lemma scalar_cells_parse:
  assumes "(g, V) \<in> set programs"
  shows "\<exists>y. clean V (Scalar v) = Inr y" and "\<exists>t. parse V (Scalar v) = Inr t"
proof -
  have c: "\<exists>y. clean_text (Scalar v) = Inr y"
    by (cases v) simp_all
  then obtain y where y: "clean_text (Scalar v) = Inr y" by blast
  from assms consider "V = chile_partidos_2025" | "V = chile_presidencial_2025"
    | "V = peru_partidos_2026" | "V = peru_pres_2026"
    by (auto simp: programs_def)
  then show "\<exists>y. clean V (Scalar v) = Inr y"
    using c by cases
      (simp_all add: chile_partidos_2025_def chile_presidencial_2025_def peru_partidos_2026_def
        peru_pres_2026_def)
  from assms consider "V = chile_partidos_2025" | "V = chile_presidencial_2025"
    | "V = peru_partidos_2026" | "V = peru_pres_2026"
    by (auto simp: programs_def)
  then show "\<exists>t. parse V (Scalar v) = Inr t"
  proof cases
    case 1
    show ?thesis
      by (rule exI [of _ "parse_cell_combined_chile_partidos (Scalar v)"])
         (simp add: 1 chile_partidos_2025_def)
  next
    case 2
    show ?thesis
      by (rule exI [of _ "parse_cell_combined_with (\<lambda>vote_part. map_option Text vote_part) y"])
         (simp add: 2 chile_presidencial_2025_def parse_cell_combined_chile_presidencial_def y)
  next
    case 3
    show ?thesis
      by (rule exI [of _ "parse_cell_combined_with
            (\<lambda>vote_part. map_option Num (map_vote_text_to_value_peru_partidos vote_part)) y"])
         (simp add: 3 peru_partidos_2026_def parse_cell_combined_peru_partidos_def y)
  next
    case 4
    show ?thesis
      by (rule exI [of _ "parse_cell_combined_with
            (\<lambda>vote_part. map_option Num (map_vote_text_to_value_peru_pres vote_part)) y"])
         (simp add: 4 peru_pres_2026_def parse_cell_combined_peru_pres_def y)
  qed
qed

lemma unique_labels_complete:
  assumes "(g, V) \<in> set programs" and "head_rows V sheet = columns # rows"
    and "Some ''Tema'' \<in> set columns" and "Some ''Statement'' \<in> set columns"
    and "distinct columns"
  shows "\<exists>doc. g sheet = Inr doc"
proof -
  have c: "\<exists>y. clean V (cell_value columns row l) = Inr y" for row l
    using cell_value_scalar [OF assms(5), of row l] scalar_cells_parse(1) [OF assms(1)]
    by auto
  have p: "\<exists>t. parse V (cell_value columns row l) = Inr t" for row l
    using cell_value_scalar [OF assms(5), of row l] scalar_cells_parse(2) [OF assms(1)]
    by auto
  have l: "\<exists>info'. row_loop V columns (entity_columns columns) rows info = Inr info'"
    for info :: "'a info"
    by (rule row_loop_completes) (use c p in blast)+
  from assms(1) show ?thesis
  proof (cases rule: program_cases)
    case parties
    from l obtain info' where
      "row_loop V columns (entity_columns columns) rows
         (init_info party_meta (entity_columns columns)) = Inr info'"
      by blast
    then show ?thesis
      by (simp add: parties(2) reshape_def assms(2,3,4))
  next
    case candidates
    from l obtain info' where
      "row_loop V columns (entity_columns columns) rows
         (init_info candidate_meta (entity_columns columns)) = Inr info'"
      by blast
    then show ?thesis
      by (simp add: candidates(2) reshape_def assms(2,3,4))
  qed
qed

lemma chile_partidos_fatal_iff:
  "(\<exists>e. generate_from_new_structure_chile_partidos sheet = Inl e) \<longleftrightarrow>
     (case head_rows chile_partidos_2025 sheet of
        [] \<Rightarrow> True
      | columns # rows \<Rightarrow> Some ''Tema'' \<notin> set columns \<or> Some ''Statement'' \<notin> set columns)"
proof -
  have c: "\<exists>y. clean chile_partidos_2025 x = Inr y" for x
    by (simp add: chile_partidos_2025_def)
  have p: "\<exists>t. parse chile_partidos_2025 x = Inr t" for x
    by (rule exI [of _ "parse_cell_combined_chile_partidos x"]) (simp add: chile_partidos_2025_def)
  show ?thesis
  proof (cases "head_rows chile_partidos_2025 sheet")
    case Nil
    then show ?thesis
      by (simp add: generate_from_new_structure_chile_partidos_def reshape_def)
  next
    case (Cons columns rows)
    have "\<exists>info'. row_loop chile_partidos_2025 columns (entity_columns columns) rows
         (init_info party_meta (entity_columns columns)) = Inr info'"
      by (rule row_loop_completes) (use c p in blast)+
    then obtain info' where
      "row_loop chile_partidos_2025 columns (entity_columns columns) rows
         (init_info party_meta (entity_columns columns)) = Inr info'"
      by blast
    with Cons show ?thesis
      by (auto simp: generate_from_new_structure_chile_partidos_def reshape_def)
  qed
qed

text \<open>
  C6. A sheet with a header row, both mandatory columns and one data row, in which two
  entity columns carry the same label, makes three of the scripts fail: the cell read for
  the duplicated label is a Series, on which \<open>clean_text\<close> raises. chile\_partidos\_2025,
  whose \<open>clean_text\<close> handles a Series, completes on the same sheet. With column labels that
  are all different, every script completes unless the sheet is empty or lacks a mandatory
  column.
\<close>

theorem duplicate_labels_abort:
  "generate_from_new_structure_peru_pres
     [[Some ''Tema'', Some ''Statement'', Some ''A'', Some ''A''],
      [Some ''t'', Some ''s'', Some ''1'', Some ''0'']] = Inl ValueError_ambiguous_series \<and>
   generate_from_new_structure_peru_partidos
     [[Some ''Tema'', Some ''Statement'', Some ''A'', Some ''A''],
      [Some ''t'', Some ''s'', Some ''1'', Some ''0'']] = Inl ValueError_ambiguous_series \<and>
   generate_from_new_structure_chile_presidencial
     [[Some ''Tema'', Some ''Statement'', Some ''A'', Some ''A''],
      [Some ''t'', Some ''s'', Some ''1'', Some ''0'']] = Inl ValueError_ambiguous_series \<and>
   generate_from_new_structure_chile_partidos
     [[Some ''Tema'', Some ''Statement'', Some ''A'', Some ''A''],
      [Some ''t'', Some ''s'', Some ''1'', Some ''0'']] =
     Inr (Parties [(Some ''A'', Some ''A'',
       [(''t: s'', \<lparr>tema = Some ''t'', question = ''s'', vote = Some (Num (Fin (1 / 2))),
           comment = Some MISSING_COMMENT_DEFAULT, source = None\<rparr>)])])"
  by (intro conjI) code_simp+


section \<open>Candidate headers with and without a party\<close>

declare header_match.simps [simp del]

lemma not_space_parens: "\<not> is_space CHR ''(''" "\<not> is_space CHR '')''" "is_space newline"
  by (simp_all add: is_space_def newline_def)

lemma dropWhile_spaces_append:
  "list_all is_space w \<Longrightarrow> dropWhile is_space (w @ s) = dropWhile is_space s"
  by (induction w) auto

lemma dropWhile_rev_last:
  "xs \<noteq> [] \<Longrightarrow> \<not> P (last xs) \<Longrightarrow> dropWhile P (rev xs) = rev xs"
  by (cases xs rule: rev_cases) auto

lemma lazy_party_no_close: "CHR '')'' \<notin> set s \<Longrightarrow> lazy_party acc s = None"
  by (induction s arbitrary: acc) auto

lemma suffix_match_None:
  "CHR ''('' \<notin> set s \<or> CHR '')'' \<notin> set s \<Longrightarrow> suffix_match s = None"
proof -
  assume a: "CHR ''('' \<notin> set s \<or> CHR '')'' \<notin> set s"
  show ?thesis
  proof (cases "dropWhile is_space s")
    case Nil
    then show ?thesis by (simp only: suffix_match_def list.case)
  next
    case (Cons c cs)
    have sub: "set (c # cs) \<subseteq> set s"
      unfolding Cons [symmetric] by (auto dest: set_dropWhileD)
    show ?thesis
    proof (cases "c = CHR ''(''")
      case True
      with sub a have "CHR '')'' \<notin> set cs" by auto
      then show ?thesis
        by (simp add: suffix_match_def Cons lazy_party_no_close)
    next
      case False
      then show ?thesis by (simp add: suffix_match_def Cons)
    qed
  qed
qed

lemma header_match_None:
  "CHR ''('' \<notin> set s \<or> CHR '')'' \<notin> set s \<Longrightarrow> header_match acc s = None"
proof (induction s arbitrary: acc)
  case Nil
  then show ?case
    by (subst header_match.simps) (simp add: suffix_match_def)
next
  case (Cons c s)
  from Cons.prems have "CHR ''('' \<notin> set s \<or> CHR '')'' \<notin> set s" by auto
  from Cons.IH [OF this] suffix_match_None [OF Cons.prems] show ?case
    by (subst header_match.simps) simp
qed

lemma set_strip: "set (strip s) \<subseteq> set s"
  unfolding strip_def by (metis set_dropWhileD set_rev subsetI)

lemma header_without_parentheses:
  assumes "CHR ''('' \<notin> set h \<or> CHR '')'' \<notin> set h"
  shows "parse_candidate_header (Some h) = (Some (strip h), None)"
proof -
  from assms set_strip [of h] have "CHR ''('' \<notin> set (strip h) \<or> CHR '')'' \<notin> set (strip h)"
    by auto
  then have "header_match [] (strip h) = None"
    by (rule header_match_None)
  then show ?thesis
    by (simp add: parse_candidate_header_def)
qed

lemma lazy_party_close:
  "newline \<notin> set q \<Longrightarrow> lazy_party acc (q @ '')'') = Some (rev acc @ q)"
proof (induction q arbitrary: acc)
  case Nil
  show ?case by simp
next
  case (Cons c q)
  have "\<not> list_all is_space (q @ '')'')"
    by (simp add: not_space_parens)
  moreover from Cons.prems have "c \<noteq> newline" "newline \<notin> set q"
    by auto
  ultimately show ?case using Cons.IH [of "c # acc"] by simp
qed

lemma suffix_match_spaces:
  assumes "list_all is_space w" and "newline \<notin> set q"
  shows "suffix_match (w @ ''('' @ q @ '')'') = Some q"
proof -
  have "dropWhile is_space (w @ ''('' @ q @ '')'') = ''('' @ q @ '')''"
    using assms(1) by (simp add: dropWhile_spaces_append not_space_parens)
  then show ?thesis
    using lazy_party_close [OF assms(2), of "[]"] by (simp add: suffix_match_def)
qed

lemma suffix_match_other:
  assumes "CHR ''('' \<notin> set u" and "\<not> list_all is_space u"
  shows "suffix_match (u @ rest) = None"
proof -
  from assms(2) obtain x where x: "x \<in> set u" "\<not> is_space x"
    by (auto simp: list_all_iff)
  then have d: "dropWhile is_space (u @ rest) = dropWhile is_space u @ rest"
    by (simp add: dropWhile_append1)
  from x have "dropWhile is_space u \<noteq> []" by auto
  then obtain c cs where c: "dropWhile is_space u = c # cs"
    by (cases "dropWhile is_space u") auto
  then have "c \<in> set u"
    by (metis list.set_intros(1) set_dropWhileD)
  with assms(1) have "c \<noteq> CHR ''(''" by auto
  then show ?thesis by (simp add: suffix_match_def d c)
qed

lemma rstrip_Cons:
  "rev (dropWhile is_space (rev (c # cs))) =
     (if list_all is_space (c # cs) then [] else c # rev (dropWhile is_space (rev cs)))"
proof (cases "list_all is_space cs")
  case True
  then have "dropWhile is_space (rev cs @ [c]) = dropWhile is_space [c]"
    by (intro dropWhile_spaces_append) simp
  moreover from True have "dropWhile is_space (rev cs) = []"
    by (simp add: list_all_iff)
  ultimately show ?thesis using True by simp
next
  case False
  then obtain x where "x \<in> set (rev cs)" "\<not> is_space x"
    by (auto simp: list_all_iff)
  then have "dropWhile is_space (rev cs @ [c]) = dropWhile is_space (rev cs) @ [c]"
    by (simp add: dropWhile_append1)
  with False show ?thesis by simp
qed

lemma header_match_group:
  assumes "CHR ''('' \<notin> set u" and "newline \<notin> set (rev (dropWhile is_space (rev u)))"
    and "newline \<notin> set q"
  shows "header_match acc (u @ ''('' @ q @ '')'') = Some (rev acc @ rev (dropWhile is_space (rev u)), q)"
  using assms(1,2)
proof (induction u arbitrary: acc)
  case Nil
  from suffix_match_spaces [of "[]" q] assms(3) show ?case
    by (subst header_match.simps) simp
next
  case (Cons c u)
  show ?case
  proof (cases "list_all is_space (c # u)")
    case True
    from suffix_match_spaces [OF True assms(3)] True show ?thesis
      by (subst header_match.simps) (simp add: rstrip_Cons del: rev.simps)
  next
    case False
    have s: "suffix_match ((c # u) @ ''('' @ q @ '')'') = None"
      using Cons.prems(1) False by (rule suffix_match_other)
    have r: "rev (dropWhile is_space (rev (c # u))) = c # rev (dropWhile is_space (rev u))"
      using False by (simp only: rstrip_Cons if_False)
    from Cons.prems(2) have n: "c \<noteq> newline" "newline \<notin> set (rev (dropWhile is_space (rev u)))"
      unfolding r by auto
    from Cons.prems(1) have "CHR ''('' \<notin> set u" by simp
    from Cons.IH [OF this n(2), of "c # acc"] s n(1) show ?thesis
      unfolding r by (subst header_match.simps) simp
  qed
qed

lemma strip_trimmed:
  "n = [] \<or> (\<not> is_space (hd n) \<and> \<not> is_space (last n)) \<Longrightarrow> strip n = n"
proof (cases n)
  case Nil
  then show ?thesis by (simp add: strip_def)
next
  case (Cons c cs)
  assume "n = [] \<or> (\<not> is_space (hd n) \<and> \<not> is_space (last n))"
  with Cons have h: "\<not> is_space c" and l: "\<not> is_space (last n)" by auto
  from h Cons have 1: "dropWhile is_space n = n" by simp
  from Cons l have "dropWhile is_space (rev n) = rev n"
    by (intro dropWhile_rev_last) simp_all
  with 1 show ?thesis by (simp add: strip_def)
qed

lemma header_with_party:
  assumes "n = [] \<or> (\<not> is_space (hd n) \<and> \<not> is_space (last n))"
    and "CHR ''('' \<notin> set n" and "newline \<notin> set n" and "list_all is_space w"
    and "newline \<notin> set q"
  shows "parse_candidate_header (Some (n @ w @ ''('' @ q @ '')'')) = (Some n, Some (strip q))"
proof -
  let ?h = "n @ w @ ''('' @ q @ '')''"
  let ?u = "if n = [] then [] else n @ w"
  have last_h: "rev ?h = CHR '')'' # rev (n @ w @ ''('' @ q)"
    by simp
  have "dropWhile is_space (rev (dropWhile is_space ?h)) = rev (dropWhile is_space ?h)"
  proof -
    have "dropWhile is_space ?h \<noteq> []"
      by (auto simp: dropWhile_eq_Nil_conv not_space_parens)
    moreover have "last (dropWhile is_space ?h) = CHR '')''"
      by (metis (no_types, lifting) calculation append_assoc append_is_Nil_conv last_appendR last_snoc
          dropWhile_eq_Nil_conv last_in_set takeWhile_dropWhile_id not_Cons_self2 self_append_conv2 Cons_eq_appendI)
    ultimately have "hd (rev (dropWhile is_space ?h)) = CHR '')''"
      by (simp add: hd_rev)
    with \<open>dropWhile is_space ?h \<noteq> []\<close> show ?thesis
      by (cases "rev (dropWhile is_space ?h)") (auto simp: not_space_parens)
  qed
  then have s1: "strip ?h = dropWhile is_space ?h"
    by (simp add: strip_def)
  have s2: "dropWhile is_space ?h = ?u @ ''('' @ q @ '')''"
  proof (cases n)
    case Nil
    with assms(4) show ?thesis
      by (simp add: dropWhile_spaces_append not_space_parens)
  next
    case (Cons c cs)
    with assms(1) have "\<not> is_space c" by simp
    with Cons show ?thesis by simp
  qed
  have u1: "CHR ''('' \<notin> set ?u"
    using assms(2,4) not_space_parens(1) by (auto simp: list_all_iff)
  have u2: "rev (dropWhile is_space (rev ?u)) = n"
  proof (cases "n = []")
    case True
    then show ?thesis by simp
  next
    case False
    have "dropWhile is_space (rev w @ rev n) = dropWhile is_space (rev n)"
      using assms(4) by (intro dropWhile_spaces_append) simp
    moreover have "rev (dropWhile is_space (rev n)) = n"
      using False assms(1) dropWhile_rev_last [of n is_space] by simp
    ultimately show ?thesis using False by simp
  qed
  have "header_match [] (?u @ ''('' @ q @ '')'') = Some (n, q)"
    using header_match_group [OF u1 _ assms(5), of "[]"] assms(3) unfolding u2 by simp
  then show ?thesis
    by (simp add: parse_candidate_header_def s1 s2 strip_trimmed [OF assms(1)] del: append.simps)
qed

text \<open>
  C9, as amended. \<open>parse_candidate_header\<close>, the same in both candidate files, returns
  the trimmed header with no party when the header lacks an opening or a closing
  parenthesis. A header made of a trimmed name without newline or opening parenthesis,
  optional space and a final parenthesised text without newline is split at its first
  opening parenthesis into the name and the trimmed text, which keeps any inner
  parentheses. The two examples of the specification evaluate as it says. A trailing
  parenthesised suffix alone does not decide the result: with an earlier parenthesis the
  party starts there, and with a newline inside the name nothing is split.
\<close>

theorem header_decomposition:
  "(CHR ''('' \<notin> set h \<or> CHR '')'' \<notin> set h \<longrightarrow>
      parse_candidate_header (Some h) = (Some (strip h), None)) \<and>
   ((n = [] \<or> (\<not> is_space (hd n) \<and> \<not> is_space (last n))) \<and> CHR ''('' \<notin> set n \<and>
      newline \<notin> set n \<and> list_all is_space w \<and> newline \<notin> set q \<longrightarrow>
      parse_candidate_header (Some (n @ w @ ''('' @ q @ '')'')) = (Some n, Some (strip q))) \<and>
   parse_candidate_header (Some (''Juan P'' @ [CHR 0xE9] @ ''rez (Partido X)'')) =
     (Some (''Juan P'' @ [CHR 0xE9] @ ''rez''), Some ''Partido X'') \<and>
   parse_candidate_header (Some (''Juan P'' @ [CHR 0xE9] @ ''rez'')) =
     (Some (''Juan P'' @ [CHR 0xE9] @ ''rez''), None)"
proof (intro conjI impI)
  assume "CHR ''('' \<notin> set h \<or> CHR '')'' \<notin> set h"
  then show "parse_candidate_header (Some h) = (Some (strip h), None)"
    by (rule header_without_parentheses)
next
  assume "(n = [] \<or> (\<not> is_space (hd n) \<and> \<not> is_space (last n))) \<and> CHR ''('' \<notin> set n \<and>
      newline \<notin> set n \<and> list_all is_space w \<and> newline \<notin> set q"
  then show "parse_candidate_header (Some (n @ w @ ''('' @ q @ '')'')) = (Some n, Some (strip q))"
    using header_with_party by blast
qed code_simp+

theorem header_decomposition_witness:
  "parse_candidate_header (Some ''Ana Ruiz'') = (Some ''Ana Ruiz'', None) \<and>
   parse_candidate_header (Some ''Ana Ruiz  ( Partido Y )'') = (Some ''Ana Ruiz'', Some ''Partido Y'')"
proof -
  have 1: "CHR ''('' \<notin> set ''Ana Ruiz'' \<or> CHR '')'' \<notin> set ''Ana Ruiz''"
    by simp
  have 2: "(''Ana Ruiz'' = [] \<or> (\<not> is_space (hd ''Ana Ruiz'') \<and> \<not> is_space (last ''Ana Ruiz''))) \<and>
      CHR ''('' \<notin> set ''Ana Ruiz'' \<and> newline \<notin> set ''Ana Ruiz'' \<and> list_all is_space ''  '' \<and>
      newline \<notin> set '' Partido Y ''"
    by (simp add: is_space_def newline_def)
  have 3: "strip ''Ana Ruiz'' = ''Ana Ruiz''" "strip '' Partido Y '' = ''Partido Y''"
    by code_simp+
  from header_decomposition [of "''Ana Ruiz''" "''Ana Ruiz''" "''  ''" "'' Partido Y ''"] 1 2 3
  show ?thesis by simp
qed

theorem header_decomposition_counterexample:
  "parse_candidate_header (Some ''Keiko Fujimori (FP) (Fuerza Popular)'') =
     (Some ''Keiko Fujimori'', Some ''FP) (Fuerza Popular'') \<and>
   parse_candidate_header (Some ''Keiko Fujimori (FP) (Fuerza Popular)'') \<noteq>
     (Some ''Keiko Fujimori (FP)'', Some ''Fuerza Popular'') \<and>
   parse_candidate_header (Some (''Juan'' @ [CHR 0x0A] @ ''Perez (Partido X)'')) =
     (Some (''Juan'' @ [CHR 0x0A] @ ''Perez (Partido X)''), None) \<and>
   parse_candidate_header (Some (''Juan'' @ [CHR 0x0A] @ ''Perez (Partido X)'')) \<noteq>
     (Some (''Juan'' @ [CHR 0x0A] @ ''Perez''), Some ''Partido X'')"
  by (intro conjI) code_simp+

end
